theory Spec2Isabelle
  imports Main
begin

section \<open>The JavaScript runtime functions the metrics server calls\<close>

text \<open>
  \<^verbatim>\<open>server.js\<close> calls \<^verbatim>\<open>JSON.parse\<close> on every incoming message and
  \<^verbatim>\<open>JSON.stringify\<close> on everything it sends. Both can throw: the parser on a text
  that is not JSON, the serialiser (a recursion over the value) with a RangeError when
  the value is nested deeper than the stack allows. The handlers below take both as
  parameters that answer \<open>None\<close> where the runtime throws, so that the general
  theorems hold for every parser and serialiser. For the scenarios with concrete
  payloads the two functions are also modelled here, on the fragment of JSON the
  scenarios live in: ASCII texts whose numbers are integer literals of magnitude at most
  \<open>2^53\<close> (where the runtime's doubles are exact) and whose strings contain no
  backslash escape. On a text outside the fragment (a fraction, an exponent, an escape,
  a larger integer, a byte above \<open>0x7F\<close>) \<open>JSON_parse\<close> answers \<open>None\<close>; no
  theorem below evaluates it on such a text.
\<close>

datatype json =
    JNull
  | JBool bool
  | JNumber int
  | JString string
  | JArray "json list"
  | JObject "(string \<times> json) list"

datatype token =
    TLBrace | TRBrace | TLBracket | TRBracket | TColon | TComma
  | TString string | TNumber int | TTrue | TFalse | TNull

definition is_ws :: "char \<Rightarrow> bool" where
  "is_ws c = (c = CHR 0x20 \<or> c = CHR 0x09 \<or> c = CHR 0x0A \<or> c = CHR 0x0D)"

definition is_digit :: "char \<Rightarrow> bool" where
  "is_digit c = (48 \<le> (of_char c :: int) \<and> (of_char c :: int) \<le> 57)"

definition is_plain :: "char \<Rightarrow> bool" where
  \<comment> \<open>a character that may stand unescaped inside a JSON string (ASCII fragment)\<close>
  "is_plain c = (32 \<le> (of_char c :: int) \<and> (of_char c :: int) \<le> 127
                 \<and> c \<noteq> CHR 0x22 \<and> c \<noteq> CHR 0x5C)"

definition digits_val :: "string \<Rightarrow> int" where
  "digits_val ds = foldl (\<lambda>n c. 10 * n + (of_char c - 48)) 0 ds"

definition lex_number :: "bool \<Rightarrow> string \<Rightarrow> token option" where
  \<comment> \<open>no digits and a leading zero are syntax errors; beyond \<open>2^53\<close> is outside the fragment\<close>
  "lex_number neg ds =
     (if ds = [] then None
      else if hd ds = CHR ''0'' \<and> tl ds \<noteq> [] then None
      else if 9007199254740992 < digits_val ds then None
      else Some (TNumber (if neg then - digits_val ds else digits_val ds)))"

definition starts_fraction :: "string \<Rightarrow> bool" where
  "starts_fraction cs = (take 1 cs = ''.'' \<or> take 1 cs = ''e'' \<or> take 1 cs = ''E'')"

function lex :: "string \<Rightarrow> token list option" where
  "lex [] = Some []"
| "lex (c # cs) =
    (if is_ws c then lex cs
     else if c = CHR ''{'' then map_option ((#) TLBrace) (lex cs)
     else if c = CHR ''}'' then map_option ((#) TRBrace) (lex cs)
     else if c = CHR ''['' then map_option ((#) TLBracket) (lex cs)
     else if c = CHR '']'' then map_option ((#) TRBracket) (lex cs)
     else if c = CHR '':'' then map_option ((#) TColon) (lex cs)
     else if c = CHR '','' then map_option ((#) TComma) (lex cs)
     else if c = CHR 0x22 then
       (if take 1 (dropWhile is_plain cs) = [CHR 0x22]
        then map_option ((#) (TString (takeWhile is_plain cs)))
               (lex (drop 1 (dropWhile is_plain cs)))
        else None)
     else if c = CHR ''-'' then
       (if starts_fraction (dropWhile is_digit cs) then None
        else case lex_number True (takeWhile is_digit cs) of
               None \<Rightarrow> None
             | Some t \<Rightarrow> map_option ((#) t) (lex (dropWhile is_digit cs)))
     else if is_digit c then
       (if starts_fraction (dropWhile is_digit cs) then None
        else case lex_number False (c # takeWhile is_digit cs) of
               None \<Rightarrow> None
             | Some t \<Rightarrow> map_option ((#) t) (lex (dropWhile is_digit cs)))
     else if take 4 (c # cs) = ''true'' then map_option ((#) TTrue) (lex (drop 3 cs))
     else if take 5 (c # cs) = ''false'' then map_option ((#) TFalse) (lex (drop 4 cs))
     else if take 4 (c # cs) = ''null'' then map_option ((#) TNull) (lex (drop 3 cs))
     else None)"
  by pat_completeness auto
termination
proof (relation "measure length")
  fix c :: char and cs :: string
  show "(drop 1 (dropWhile is_plain cs), c # cs) \<in> measure length"
    using length_dropWhile_le [of is_plain cs] by simp
  show "(dropWhile is_digit cs, c # cs) \<in> measure length"
    by (simp add: le_imp_less_Suc length_dropWhile_le)
  then show "(dropWhile is_digit cs, c # cs) \<in> measure length" .
qed auto

text \<open>
  Property order of a JavaScript object: array-index keys first, in ascending numeric
  order, then the other keys in the order of their creation; defining a key again
  replaces the value and keeps the place.
\<close>

definition is_array_index :: "string \<Rightarrow> bool" where
  "is_array_index k =
     (k \<noteq> [] \<and> list_all is_digit k \<and> (if hd k = CHR ''0'' then k = ''0'' else True)
      \<and> digits_val k < 4294967295)"

definition sorts_before :: "string \<Rightarrow> string \<times> json \<Rightarrow> bool" where
  "sorts_before k p = (is_array_index (fst p) \<and> digits_val (fst p) < digits_val k)"

definition CreateDataProperty ::
  "(string \<times> json) list \<Rightarrow> string \<Rightarrow> json \<Rightarrow> (string \<times> json) list" where
  "CreateDataProperty ps k v =
     (if k \<in> fst ` set ps then map (\<lambda>p. if fst p = k then (k, v) else p) ps
      else if is_array_index k
        then takeWhile (sorts_before k) ps @ [(k, v)] @ dropWhile (sorts_before k) ps
      else ps @ [(k, v)])"

text \<open>The parser proper: an automaton over the tokens with a stack of open containers.\<close>

datatype frame =
    ArrayFrame "json list"
  | ObjectFrame "(string \<times> json) list"
  | MemberFrame "(string \<times> json) list" string

datatype mode = ExpValue | ExpValueOrClose | ExpKey | ExpKeyOrClose | ExpColon | Got json

definition begin_value :: "frame list \<Rightarrow> token \<Rightarrow> (mode \<times> frame list) option" where
  "begin_value st t =
     (case t of
        TNull \<Rightarrow> Some (Got JNull, st)
      | TTrue \<Rightarrow> Some (Got (JBool True), st)
      | TFalse \<Rightarrow> Some (Got (JBool False), st)
      | TNumber n \<Rightarrow> Some (Got (JNumber n), st)
      | TString s \<Rightarrow> Some (Got (JString s), st)
      | TLBracket \<Rightarrow> Some (ExpValueOrClose, ArrayFrame [] # st)
      | TLBrace \<Rightarrow> Some (ExpKeyOrClose, ObjectFrame [] # st)
      | _ \<Rightarrow> None)"

definition begin_member :: "frame list \<Rightarrow> token \<Rightarrow> (mode \<times> frame list) option" where
  "begin_member st t =
     (case (st, t) of
        (ObjectFrame ps # st', TString k) \<Rightarrow> Some (ExpColon, MemberFrame ps k # st')
      | _ \<Rightarrow> None)"

definition end_value :: "json \<Rightarrow> frame list \<Rightarrow> token \<Rightarrow> (mode \<times> frame list) option" where
  "end_value v st t =
     (case st of
        ArrayFrame xs # st' \<Rightarrow>
          (if t = TComma then Some (ExpValue, ArrayFrame (xs @ [v]) # st')
           else if t = TRBracket then Some (Got (JArray (xs @ [v])), st')
           else None)
      | MemberFrame ps k # st' \<Rightarrow>
          (if t = TComma then Some (ExpKey, ObjectFrame (CreateDataProperty ps k v) # st')
           else if t = TRBrace then Some (Got (JObject (CreateDataProperty ps k v)), st')
           else None)
      | _ \<Rightarrow> None)"

definition parse_step :: "mode \<times> frame list \<Rightarrow> token \<Rightarrow> (mode \<times> frame list) option" where
  "parse_step ms t =
     (case fst ms of
        ExpValue \<Rightarrow> begin_value (snd ms) t
      | ExpValueOrClose \<Rightarrow>
          (if t = TRBracket then Some (Got (JArray []), tl (snd ms)) else begin_value (snd ms) t)
      | ExpKey \<Rightarrow> begin_member (snd ms) t
      | ExpKeyOrClose \<Rightarrow>
          (if t = TRBrace then Some (Got (JObject []), tl (snd ms)) else begin_member (snd ms) t)
      | ExpColon \<Rightarrow> (if t = TColon then Some (ExpValue, snd ms) else None)
      | Got v \<Rightarrow> end_value v (snd ms) t)"

fun parse_tokens :: "mode \<times> frame list \<Rightarrow> token list \<Rightarrow> json option" where
  "parse_tokens ms [] = (case ms of (Got v, []) \<Rightarrow> Some v | _ \<Rightarrow> None)"
| "parse_tokens ms (t # ts) =
     (case parse_step ms t of None \<Rightarrow> None | Some ms' \<Rightarrow> parse_tokens ms' ts)"

definition JSON_parse :: "string \<Rightarrow> json option" where
  \<comment> \<open>\<open>None\<close> is the thrown SyntaxError\<close>
  "JSON_parse text = (case lex text of None \<Rightarrow> None | Some ts \<Rightarrow> parse_tokens (ExpValue, []) ts)"

function digits_of :: "int \<Rightarrow> string" where
  "digits_of n =
     (if n < 10 then [char_of (48 + n)]
      else digits_of (n div 10) @ [char_of (48 + n mod 10)])"
  by pat_completeness auto
termination
  by (relation "measure nat") auto

definition Number_toString :: "int \<Rightarrow> string" where
  "Number_toString n = (if n < 0 then CHR ''-'' # digits_of (- n) else digits_of n)"

definition hex_digit :: "int \<Rightarrow> char" where
  "hex_digit n = (if n < 10 then char_of (48 + n) else char_of (87 + n))"

definition quote_char :: "char \<Rightarrow> string" where
  "quote_char c =
     (if c = CHR 0x22 then [CHR 0x5C, CHR 0x22]
      else if c = CHR 0x5C then [CHR 0x5C, CHR 0x5C]
      else if c = CHR 0x08 then [CHR 0x5C, CHR ''b'']
      else if c = CHR 0x09 then [CHR 0x5C, CHR ''t'']
      else if c = CHR 0x0A then [CHR 0x5C, CHR ''n'']
      else if c = CHR 0x0C then [CHR 0x5C, CHR ''f'']
      else if c = CHR 0x0D then [CHR 0x5C, CHR ''r'']
      else if (of_char c :: int) < 32
        then [CHR 0x5C, CHR ''u'', CHR ''0'', CHR ''0'',
              hex_digit (of_char c div 16), hex_digit (of_char c mod 16)]
      else [c])"

definition QuoteJSONString :: "string \<Rightarrow> string" where
  "QuoteJSONString s = [CHR 0x22] @ concat (map quote_char s) @ [CHR 0x22]"

fun join :: "string \<Rightarrow> string list \<Rightarrow> string" where
  "join sep [] = []"
| "join sep [x] = x"
| "join sep (x # y # ys) = x @ sep @ join sep (y # ys)"

fun JSON_stringify :: "json \<Rightarrow> string" where
  "JSON_stringify JNull = ''null''"
| "JSON_stringify (JBool b) = (if b then ''true'' else ''false'')"
| "JSON_stringify (JNumber n) = Number_toString n"
| "JSON_stringify (JString s) = QuoteJSONString s"
| "JSON_stringify (JArray xs) = ''['' @ join '','' (map JSON_stringify xs) @ '']''"
| "JSON_stringify (JObject ps) =
     ''{'' @ join '','' (map (\<lambda>(k, v). QuoteJSONString k @ '':'' @ JSON_stringify v) ps) @ ''}''"

text \<open>
  The serialiser as an engine runs it. \<open>JSON_stringify\<close> above is the function of the
  language standard; an engine computes it by recursion and throws when the value is
  nested deeper than its stack holds. How deep that is depends on the engine and on the
  stack it was given, so the bound is a parameter. Where a bound is needed below it is
  4999: an engine whose stack does not hold the serialisation of 5000 nested arrays.
\<close>

fun depth :: "json \<Rightarrow> nat" where
  "depth (JArray xs) = Suc (foldr max (map depth xs) 0)"
| "depth (JObject ps) = Suc (foldr max (map (\<lambda>(k, v). depth v) ps) 0)"
| "depth _ = 0"

definition JSON_stringify_rt :: "nat \<Rightarrow> json \<Rightarrow> string option" where
  \<comment> \<open>\<open>None\<close> is the thrown RangeError\<close>
  "JSON_stringify_rt limit v = (if depth v \<le> limit then Some (JSON_stringify v) else None)"

text \<open>
  A payload of nothing but nested arrays: \<open>nest_text n\<close> is \<open>n + 1\<close> opening brackets
  followed by as many closing ones, \<open>nest n\<close> is the value it denotes.
\<close>

fun nest :: "nat \<Rightarrow> json" where
  "nest 0 = JArray []"
| "nest (Suc n) = JArray [nest n]"

definition nest_text :: "nat \<Rightarrow> string" where
  "nest_text n = replicate (Suc n) (CHR ''['') @ replicate (Suc n) (CHR '']'')"

section \<open>The metrics server (\<^verbatim>\<open>Websocket_testings/system_monitor/server.js\<close>)\<close>

text \<open>
  A socket object is identified by a number. Its \<^verbatim>\<open>readyState\<close> belongs to the
  \<^verbatim>\<open>ws\<close> library, which changes it between handler runs; the server only reads it.
\<close>

type_synonym ws = nat

datatype ready_state = CONNECTING | OPEN | CLOSING | CLOSED

text \<open>
  What a handler does to the outside world, in the order it does it: a call of
  \<^verbatim>\<open>send\<close> on a socket with the text passed, a line of \<^verbatim>\<open>console.log\<close> (with
  the value printed after the label, where there is one), a line of
  \<^verbatim>\<open>console.error\<close>; and the answer to an HTTP request: the body written by
  \<^verbatim>\<open>res.json\<close>, the error answer the framework gives when the route handler
  throws, a file served by the static middleware, the framework's "not found".
\<close>

datatype 'v effect =
    WsSend ws string
  | ConsoleLog string
  | ConsoleLogValue string 'v
  | ConsoleError string
  | ResJson string
  | ResError
  | ResFile string
  | ResNotFound

record 'v server_state =
  latestMetrics :: 'v
  clients :: "ws list"
  readyState :: "ws \<Rightarrow> ready_state"

text \<open>
  \<^verbatim>\<open>clients\<close> is a JavaScript \<^verbatim>\<open>Set\<close>: it keeps insertion order (the order
  \<^verbatim>\<open>forEach\<close> visits), \<^verbatim>\<open>add\<close> of a member changes nothing and \<^verbatim>\<open>delete\<close>
  removes the member.
\<close>

definition Set_add :: "'a \<Rightarrow> 'a list \<Rightarrow> 'a list" where
  "Set_add x xs = (if x \<in> set xs then xs else xs @ [x])"

definition Set_delete :: "'a \<Rightarrow> 'a list \<Rightarrow> 'a list" where
  "Set_delete x xs = removeAll x xs"

definition init :: "'v \<Rightarrow> 'v server_state" where
  \<comment> \<open>\<^verbatim>\<open>let latestMetrics = {}; const clients = new Set();\<close> the argument is \<^verbatim>\<open>{}\<close>\<close>
  "init empty_object =
     \<lparr>latestMetrics = empty_object, clients = [], readyState = (\<lambda>_. CONNECTING)\<rparr>"

text \<open>
  The connection handler serialises the snapshot outside any \<^verbatim>\<open>try\<close>. When the
  serialiser throws, the socket has been added and the first line logged, nothing is
  sent, and the exception leaves the handler uncaught: the process exits. The state
  component \<open>None\<close> is the exited process.
\<close>

definition on_connection ::
  "('v \<Rightarrow> string option) \<Rightarrow> ws \<Rightarrow> 'v server_state
     \<Rightarrow> 'v server_state option \<times> 'v effect list" where
  "on_connection stringify ws st =
     (case stringify (latestMetrics st) of
        Some data \<Rightarrow>
          (Some (st\<lparr>clients := Set_add ws (clients st)\<rparr>),
           [ConsoleLog ''New client connected'', WsSend ws data])
      | None \<Rightarrow> (None, [ConsoleLog ''New client connected'']))"

text \<open>
  The loop of the broadcast, inside the \<^verbatim>\<open>try\<close> of the message handler. It
  serialises the value anew for each open member; the first time the serialiser throws
  the loop is left. The result is the sends made and whether the loop was left by an
  exception.
\<close>

fun forEach_send ::
  "('v \<Rightarrow> string option) \<Rightarrow> 'v \<Rightarrow> (ws \<Rightarrow> ready_state) \<Rightarrow> ws list
     \<Rightarrow> 'v effect list \<times> bool" where
  "forEach_send stringify metrics rs [] = ([], False)"
| "forEach_send stringify metrics rs (client # rest) =
     (if rs client = OPEN then
        (case stringify metrics of
           None \<Rightarrow> ([], True)
         | Some data \<Rightarrow>
             (case forEach_send stringify metrics rs rest of
                (out, threw) \<Rightarrow> (WsSend client data # out, threw)))
      else forEach_send stringify metrics rs rest)"

definition broadcast ::
  "('v \<Rightarrow> string option) \<Rightarrow> 'v \<Rightarrow> 'v server_state \<Rightarrow> 'v effect list \<times> bool" where
  \<comment> \<open>\<^verbatim>\<open>clients.forEach((client) => { if (client.readyState === WebSocket.OPEN) ... })\<close>\<close>
  "broadcast stringify metrics st = forEach_send stringify metrics (readyState st) (clients st)"

definition on_message ::
  "(string \<Rightarrow> 'v option) \<Rightarrow> ('v \<Rightarrow> string option) \<Rightarrow> ws \<Rightarrow> string \<Rightarrow> 'v server_state
     \<Rightarrow> 'v server_state \<times> 'v effect list" where
  \<comment> \<open>the \<^verbatim>\<open>try\<close> block and its \<^verbatim>\<open>catch\<close>: an exception of \<^verbatim>\<open>JSON.parse\<close>
      comes before the assignment, one of \<^verbatim>\<open>JSON.stringify\<close> after it\<close>
  "on_message parse stringify ws message st =
     (case parse message of
        Some metrics \<Rightarrow>
          (case broadcast stringify metrics (st\<lparr>latestMetrics := metrics\<rparr>) of
             (out, threw) \<Rightarrow>
               (st\<lparr>latestMetrics := metrics\<rparr>,
                ConsoleLogValue ''Received metrics:'' metrics # out
                  @ (if threw then [ConsoleError ''Error processing message:''] else [])))
      | None \<Rightarrow> (st, [ConsoleError ''Error processing message:'']))"

definition on_close :: "ws \<Rightarrow> 'v server_state \<Rightarrow> 'v server_state \<times> 'v effect list" where
  "on_close ws st =
     (st\<lparr>clients := Set_delete ws (clients st)\<rparr>, [ConsoleLog ''Client disconnected''])"

definition get_metrics ::
  "('v \<Rightarrow> string option) \<Rightarrow> 'v server_state \<Rightarrow> 'v server_state \<times> 'v effect list" where
  \<comment> \<open>\<^verbatim>\<open>app.get('/metrics', (req, res) => { res.json(latestMetrics); })\<close>; the framework
      catches what the handler throws and answers with an error\<close>
  "get_metrics stringify st =
     (case stringify (latestMetrics st) of
        Some body \<Rightarrow> (st, [ResJson body])
      | None \<Rightarrow> (st, [ResError]))"

text \<open>
  An HTTP GET request goes through the middleware in the order of registration: first
  \<^verbatim>\<open>express.static\<close> over the directory of \<^verbatim>\<open>server.js\<close>, then the one route. What
  the static middleware does with a path is a parameter: \<open>Some f\<close> when it answers the
  request with the file \<open>f\<close>, \<open>None\<close> when it passes the request on. The route
  matches its path the way the framework does by default: letter case is ignored and
  one trailing slash is allowed.
\<close>

definition to_lower :: "char \<Rightarrow> char" where
  "to_lower c =
     (if 65 \<le> (of_char c :: int) \<and> (of_char c :: int) \<le> 90
      then char_of ((of_char c :: int) + 32) else c)"

definition route_metrics :: "string \<Rightarrow> bool" where
  "route_metrics path =
     (map to_lower path = ''/metrics'' \<or> map to_lower path = ''/metrics/'')"

definition http_get ::
  "(string \<Rightarrow> string option) \<Rightarrow> ('v \<Rightarrow> string option) \<Rightarrow> string \<Rightarrow> 'v server_state
     \<Rightarrow> 'v server_state \<times> 'v effect list" where
  "http_get static stringify path st =
     (case static path of
        Some file \<Rightarrow> (st, [ResFile file])
      | None \<Rightarrow>
          (if route_metrics path then get_metrics stringify st else (st, [ResNotFound])))"

text \<open>
  The event loop runs one handler at a time. \<open>Connection\<close>, \<open>Message\<close> and \<open>Close\<close>
  are the three events the server listens to; the library has set the socket's
  \<^verbatim>\<open>readyState\<close> to \<^verbatim>\<open>OPEN\<close> before it emits \<^verbatim>\<open>'connection'\<close> and to
  \<^verbatim>\<open>CLOSED\<close> before it emits \<^verbatim>\<open>'close'\<close>. \<open>TransportClosing\<close> is the library
  starting to close a socket (a close frame arrived, the peer hung up): the
  \<^verbatim>\<open>readyState\<close> becomes \<^verbatim>\<open>CLOSING\<close> and no handler of the server runs.
  \<open>HttpGet\<close> is a GET request for a path (what is left of the URL once the query
  string is removed). Once the process has exited no further event is handled.
\<close>

datatype event =
    Connection ws
  | Message ws string
  | TransportClosing ws
  | Close ws
  | HttpGet string

fun step ::
  "(string \<Rightarrow> string option) \<Rightarrow> (string \<Rightarrow> 'v option) \<Rightarrow> ('v \<Rightarrow> string option) \<Rightarrow> event
     \<Rightarrow> 'v server_state \<Rightarrow> 'v server_state option \<times> 'v effect list" where
  "step static parse stringify (Connection ws) st =
     on_connection stringify ws (st\<lparr>readyState := (readyState st)(ws := OPEN)\<rparr>)"
| "step static parse stringify (Message ws message) st =
     (case on_message parse stringify ws message st of (st', out) \<Rightarrow> (Some st', out))"
| "step static parse stringify (TransportClosing ws) st =
     (Some (st\<lparr>readyState := (readyState st)(ws := CLOSING)\<rparr>), [])"
| "step static parse stringify (Close ws) st =
     (case on_close ws (st\<lparr>readyState := (readyState st)(ws := CLOSED)\<rparr>) of
        (st', out) \<Rightarrow> (Some st', out))"
| "step static parse stringify (HttpGet path) st =
     (case http_get static stringify path st of (st', out) \<Rightarrow> (Some st', out))"

fun run ::
  "(string \<Rightarrow> string option) \<Rightarrow> (string \<Rightarrow> 'v option) \<Rightarrow> ('v \<Rightarrow> string option)
     \<Rightarrow> event list \<Rightarrow> 'v server_state \<Rightarrow> 'v server_state option \<times> 'v effect list" where
  "run static parse stringify [] st = (Some st, [])"
| "run static parse stringify (e # es) st =
     (case step static parse stringify e st of
        (None, out) \<Rightarrow> (None, out)
      | (Some st', out) \<Rightarrow>
          (case run static parse stringify es st' of (r, out') \<Rightarrow> (r, out @ out')))"

text \<open>Projections of a list of effects: the sends, those to one socket, the HTTP bodies.\<close>

fun sends_of :: "'v effect list \<Rightarrow> (ws \<times> string) list" where
  "sends_of [] = []"
| "sends_of (WsSend c d # xs) = (c, d) # sends_of xs"
| "sends_of (_ # xs) = sends_of xs"

definition sent_to :: "ws \<Rightarrow> 'v effect list \<Rightarrow> string list" where
  "sent_to c xs = map snd (filter (\<lambda>p. fst p = c) (sends_of xs))"

fun responses_of :: "'v effect list \<Rightarrow> string list" where
  "responses_of [] = []"
| "responses_of (ResJson d # xs) = d # responses_of xs"
| "responses_of (_ # xs) = responses_of xs"

text \<open>
  What a history of events contains; whether a socket has joined the server and not
  left it, by the connection and close events of the history alone; the invariant of the
  reachable states.
\<close>

fun connections :: "event list \<Rightarrow> ws list" where
  "connections [] = []"
| "connections (Connection c # es) = c # connections es"
| "connections (_ # es) = connections es"

fun closes :: "event list \<Rightarrow> ws list" where
  "closes [] = []"
| "closes (Close c # es) = c # closes es"
| "closes (_ # es) = closes es"

fun messages :: "event list \<Rightarrow> (ws \<times> string) list" where
  "messages [] = []"
| "messages (Message c m # es) = (c, m) # messages es"
| "messages (_ # es) = messages es"

fun joined :: "ws \<Rightarrow> bool \<Rightarrow> event list \<Rightarrow> bool" where
  "joined c b [] = b"
| "joined c b (e # es) =
     joined c (if e = Connection c then True else if e = Close c then False else b) es"

definition live :: "'v server_state \<Rightarrow> bool" where
  "live st = (distinct (clients st)
     \<and> list_all (\<lambda>c. readyState st c = OPEN \<or> readyState st c = CLOSING) (clients st))"

text \<open>
  The directory served by the static middleware is the one \<^verbatim>\<open>server.js\<close> lies in, so
  it holds at least that file. \<open>serves_server_js\<close> is the middleware over a directory
  that holds nothing else.
\<close>

definition serves_server_js :: "string \<Rightarrow> string option" where
  "serves_server_js path = (if path = ''/server.js'' then Some ''server.js'' else None)"

section \<open>The echo servers (\<^verbatim>\<open>unnamed/part_000\<close>, \<^verbatim>\<open>unnamed/part_001\<close>)\<close>

definition part_000_incoming :: "ws \<Rightarrow> string \<Rightarrow> 'v effect list" where
  \<comment> \<open>a template literal: \<^verbatim>\<open>${message}\<close> is replaced by the text of the message\<close>
  "part_000_incoming ws message =
     [ConsoleLog (''Received from client: '' @ message),
      WsSend ws (''Server received: '' @ message)]"

definition part_001_incoming :: "ws \<Rightarrow> string \<Rightarrow> 'v effect list" where
  \<comment> \<open>a single-quoted string: \<^verbatim>\<open>${message}\<close> stays as it is written\<close>
  "part_001_incoming ws message =
     [ConsoleLog (''Recieved from client: '' @ message),
      WsSend ws ''Server recieved: ${message}'']"

section \<open>Facts about the runtime functions\<close>

lemma parse_cpu: "JSON_parse ''{\"cpu\":42}'' = Some (JObject [(''cpu'', JNumber 42)])"
  by code_simp

lemma stringify_cpu: "JSON_stringify (JObject [(''cpu'', JNumber 42)]) = ''{\"cpu\":42}''"
  by code_simp


lemma parse_hello: "JSON_parse ''hello'' = None"
  by code_simp

lemma parse_quoted_hello: "JSON_parse ''\"hello\"'' = Some (JString ''hello'')"
  by code_simp

lemma stringify_hello: "JSON_stringify (JString ''hello'') = ''\"hello\"''"
  by code_simp

lemma stringify_empty: "JSON_stringify (JObject []) = ''{}''"
  by code_simp


lemma stringify_rt_empty: "0 < limit \<Longrightarrow> JSON_stringify_rt limit (JObject []) = Some ''{}''"
  unfolding JSON_stringify_rt_def stringify_empty by simp

lemma stringify_rt_hello: "JSON_stringify_rt limit (JString ''hello'') = Some ''\"hello\"''"
  unfolding JSON_stringify_rt_def stringify_hello by simp

lemma depth_nest: "depth (nest n) = Suc n"
  by (induction n) simp_all

lemma stringify_rt_nest: "limit \<le> n \<Longrightarrow> JSON_stringify_rt limit (nest n) = None"
  by (simp add: JSON_stringify_rt_def depth_nest)

lemma lex_opening:
  "lex (replicate n (CHR ''['') @ cs) = map_option ((@) (replicate n TLBracket)) (lex cs)"
  by (induction n) (simp_all add: is_ws_def option.map_comp o_def option.map_ident)

lemma lex_closing: "lex (replicate n (CHR '']'')) = Some (replicate n TRBracket)"
  by (induction n) (simp_all add: is_ws_def)

lemma parse_opening:
  "parse_tokens (ExpValueOrClose, st) (replicate n TLBracket @ ts) =
     parse_tokens (ExpValueOrClose, replicate n (ArrayFrame []) @ st) ts"
proof (induction n arbitrary: st)
  case 0
  show ?case by simp
next
  case (Suc n)
  have "parse_tokens (ExpValueOrClose, st) (replicate (Suc n) TLBracket @ ts) =
        parse_tokens (ExpValueOrClose, ArrayFrame [] # st) (replicate n TLBracket @ ts)"
    by (simp add: parse_step_def begin_value_def)
  also have "\<dots> = parse_tokens (ExpValueOrClose, replicate n (ArrayFrame []) @ ArrayFrame [] # st) ts"
    by (rule Suc.IH)
  finally show ?case
    by (simp add: replicate_app_Cons_same)
qed

lemma parse_closing:
  "parse_tokens (Got (nest j), replicate k (ArrayFrame []) @ st) (replicate k TRBracket @ ts) =
     parse_tokens (Got (nest (j + k)), st) ts"
proof (induction k arbitrary: j)
  case 0
  show ?case by simp
next
  case (Suc k)
  have "parse_tokens (Got (nest j), replicate (Suc k) (ArrayFrame []) @ st)
          (replicate (Suc k) TRBracket @ ts) =
        parse_tokens (Got (nest (Suc j)), replicate k (ArrayFrame []) @ st)
          (replicate k TRBracket @ ts)"
    by (simp add: parse_step_def end_value_def)
  also have "\<dots> = parse_tokens (Got (nest (Suc j + k)), st) ts"
    by (rule Suc.IH)
  finally show ?case
    by simp
qed

lemma parse_nest_text: "JSON_parse (nest_text n) = Some (nest n)"
proof -
  have "lex (nest_text n) = Some (replicate (Suc n) TLBracket @ replicate (Suc n) TRBracket)"
    unfolding nest_text_def lex_opening lex_closing by simp
  moreover have "parse_tokens (ExpValue, [])
        (replicate (Suc n) TLBracket @ replicate (Suc n) TRBracket) =
      parse_tokens (ExpValueOrClose, [ArrayFrame []])
        (replicate n TLBracket @ replicate (Suc n) TRBracket)"
    by (simp add: parse_step_def begin_value_def)
  moreover have "parse_tokens (ExpValueOrClose, [ArrayFrame []])
        (replicate n TLBracket @ replicate (Suc n) TRBracket) =
      parse_tokens (ExpValueOrClose, replicate n (ArrayFrame []) @ [ArrayFrame []])
        (replicate (Suc n) TRBracket)"
    by (rule parse_opening)
  moreover have "parse_tokens (ExpValueOrClose, replicate n (ArrayFrame []) @ [ArrayFrame []])
        (replicate (Suc n) TRBracket) =
      parse_tokens (Got (nest 0), replicate n (ArrayFrame []) @ []) (replicate n TRBracket @ [])"
    by (cases n) (simp_all add: parse_step_def replicate_app_Cons_same)
  moreover have "parse_tokens (Got (nest 0), replicate n (ArrayFrame []) @ [])
        (replicate n TRBracket @ []) = parse_tokens (Got (nest (0 + n)), []) []"
    by (rule parse_closing)
  ultimately show ?thesis
    by (simp add: JSON_parse_def)
qed

section \<open>Facts about the handlers\<close>

lemma sends_of_append: "sends_of (xs @ ys) = sends_of xs @ sends_of ys"
  by (induction xs rule: sends_of.induct) simp_all

lemma sent_to_append: "sent_to c (xs @ ys) = sent_to c xs @ sent_to c ys"
  by (simp add: sent_to_def sends_of_append)

lemma responses_of_append: "responses_of (xs @ ys) = responses_of xs @ responses_of ys"
  by (induction xs rule: responses_of.induct) simp_all

lemma sends_of_WsSend: "sends_of (map (\<lambda>c. WsSend c d) xs) = map (\<lambda>c. (c, d)) xs"
  by (induction xs) simp_all

lemma forEach_send_Some:
  "stringify metrics = Some d \<Longrightarrow>
     forEach_send stringify metrics rs xs =
       (map (\<lambda>c. WsSend c d) (filter (\<lambda>c. rs c = OPEN) xs), False)"
  by (induction xs) simp_all

lemma forEach_send_None:
  "stringify metrics = None \<Longrightarrow>
     forEach_send stringify metrics rs xs = ([], \<exists>c \<in> set xs. rs c = OPEN)"
  by (induction xs) simp_all

lemma on_message_None:
  "parse message = None \<Longrightarrow>
     on_message parse stringify ws message st = (st, [ConsoleError ''Error processing message:''])"
  by (simp add: on_message_def)

lemma on_message_sent:
  "parse message = Some v \<Longrightarrow> stringify v = Some d \<Longrightarrow>
     on_message parse stringify ws message st =
       (st\<lparr>latestMetrics := v\<rparr>,
        ConsoleLogValue ''Received metrics:'' v
          # map (\<lambda>c. WsSend c d) (filter (\<lambda>c. readyState st c = OPEN) (clients st)))"
  by (simp add: on_message_def broadcast_def forEach_send_Some)

lemma on_message_threw:
  "parse message = Some v \<Longrightarrow> stringify v = None \<Longrightarrow>
     on_message parse stringify ws message st =
       (st\<lparr>latestMetrics := v\<rparr>,
        ConsoleLogValue ''Received metrics:'' v
          # (if \<exists>c \<in> set (clients st). readyState st c = OPEN
             then [ConsoleError ''Error processing message:''] else []))"
  by (simp add: on_message_def broadcast_def forEach_send_None)

lemma on_message_frame:
  "clients (fst (on_message parse stringify ws message st)) = clients st"
  "readyState (fst (on_message parse stringify ws message st)) = readyState st"
  by (simp_all add: on_message_def split: option.splits prod.splits)

lemma sends_of_on_message:
  "set (sends_of (snd (on_message parse stringify ws message st)))
     \<subseteq> {p. fst p \<in> set (clients st)}"
proof (cases "parse message")
  case None
  then show ?thesis by (simp add: on_message_None)
next
  case (Some v)
  then show ?thesis
    by (cases "stringify v") (auto simp: on_message_sent on_message_threw sends_of_WsSend)
qed

lemma http_get_frame: "fst (http_get static stringify path st) = st"
  by (simp add: http_get_def get_metrics_def split: option.splits)

lemma sends_of_http_get: "sends_of (snd (http_get static stringify path st)) = []"
  by (simp add: http_get_def get_metrics_def split: option.splits)

lemma step_frame:
  assumes "fst (step static parse stringify e st) = Some st'"
  shows "clients st' =
           (case e of Connection c \<Rightarrow> Set_add c (clients st)
                    | Close c \<Rightarrow> Set_delete c (clients st)
                    | _ \<Rightarrow> clients st)"
    and "readyState st' =
           (case e of Connection c \<Rightarrow> (readyState st)(c := OPEN)
                    | TransportClosing c \<Rightarrow> (readyState st)(c := CLOSING)
                    | Close c \<Rightarrow> (readyState st)(c := CLOSED)
                    | _ \<Rightarrow> readyState st)"
proof -
  show "clients st' =
           (case e of Connection c \<Rightarrow> Set_add c (clients st)
                    | Close c \<Rightarrow> Set_delete c (clients st)
                    | _ \<Rightarrow> clients st)"
  proof (cases e)
    case (Connection c)
    with assms show ?thesis
      by (auto simp: on_connection_def split: option.splits)
  next
    case (Message c m)
    with assms on_message_frame(1) [of parse stringify c m st] show ?thesis
      by (auto split: prod.splits)
  next
    case (TransportClosing c)
    with assms show ?thesis by auto
  next
    case (Close c)
    with assms show ?thesis by (auto simp: on_close_def)
  next
    case (HttpGet path)
    with assms http_get_frame [of static stringify path st] show ?thesis
      by (auto split: prod.splits)
  qed
  show "readyState st' =
           (case e of Connection c \<Rightarrow> (readyState st)(c := OPEN)
                    | TransportClosing c \<Rightarrow> (readyState st)(c := CLOSING)
                    | Close c \<Rightarrow> (readyState st)(c := CLOSED)
                    | _ \<Rightarrow> readyState st)"
  proof (cases e)
    case (Connection c)
    with assms show ?thesis
      by (auto simp: on_connection_def split: option.splits)
  next
    case (Message c m)
    with assms on_message_frame(2) [of parse stringify c m st] show ?thesis
      by (auto split: prod.splits)
  next
    case (TransportClosing c)
    with assms show ?thesis by auto
  next
    case (Close c)
    with assms show ?thesis by (auto simp: on_close_def)
  next
    case (HttpGet path)
    with assms http_get_frame [of static stringify path st] show ?thesis
      by (auto split: prod.splits)
  qed
qed

lemma step_exits_only_on_connection:
  "fst (step static parse stringify e st) = None \<Longrightarrow>
     \<exists>c. e = Connection c \<and> stringify (latestMetrics st) = None"
  by (cases e) (auto simp: on_connection_def split: option.splits prod.splits)

lemma run_Cons_exit:
  "fst (step static parse stringify e st) = None \<Longrightarrow>
     run static parse stringify (e # es) st = (None, snd (step static parse stringify e st))"
  by (cases "step static parse stringify e st") simp

lemma run_Cons_on:
  "fst (step static parse stringify e st) = Some st' \<Longrightarrow>
     run static parse stringify (e # es) st =
       (fst (run static parse stringify es st'),
        snd (step static parse stringify e st) @ snd (run static parse stringify es st'))"
  by (cases "step static parse stringify e st") (simp split: prod.splits)

declare run.simps(2) [simp del]

lemma run_append_on:
  "fst (run static parse stringify es st) = Some st' \<Longrightarrow>
     run static parse stringify (es @ es') st =
       (fst (run static parse stringify es' st'),
        snd (run static parse stringify es st) @ snd (run static parse stringify es' st'))"
proof (induction es arbitrary: st)
  case Nil
  then show ?case by simp
next
  case (Cons e es)
  show ?case
  proof (cases "fst (step static parse stringify e st)")
    case None
    with Cons.prems show ?thesis
      by (simp add: run_Cons_exit)
  next
    case (Some st1)
    with Cons.prems have "fst (run static parse stringify es st1) = Some st'"
      by (simp add: run_Cons_on)
    from Cons.IH [OF this] Some show ?thesis
      by (simp add: run_Cons_on)
  qed
qed

lemma live_init: "live (init e)"
  by (simp add: live_def init_def)

lemma live_step:
  assumes "live st" and "fst (step static parse stringify e st) = Some st'"
  shows "live st'"
  using assms(1) unfolding live_def step_frame [OF assms(2)]
  by (cases e) (auto simp: Set_add_def Set_delete_def list_all_iff distinct_removeAll)

lemma live_run:
  "live st \<Longrightarrow> fst (run static parse stringify es st) = Some st' \<Longrightarrow> live st'"
proof (induction es arbitrary: st)
  case Nil
  then show ?case by simp
next
  case (Cons e es)
  show ?case
  proof (cases "fst (step static parse stringify e st)")
    case None
    with Cons.prems(2) show ?thesis
      by (simp add: run_Cons_exit)
  next
    case (Some st1)
    with Cons.prems(2) have r: "fst (run static parse stringify es st1) = Some st'"
      by (simp add: run_Cons_on)
    from Cons.prems(1) Some have "live st1"
      by (rule live_step)
    then show ?thesis
      using r by (rule Cons.IH)
  qed
qed

lemma sends_of_step:
  "(c, d) \<in> set (sends_of (snd (step static parse stringify e st))) \<Longrightarrow>
     c \<in> set (clients st) \<or> e = Connection c"
proof (cases e)
  case (Message w m)
  assume "(c, d) \<in> set (sends_of (snd (step static parse stringify e st)))"
  with Message sends_of_on_message [of parse stringify w m st] show ?thesis
    by (auto split: prod.splits)
next
  case (HttpGet path)
  assume "(c, d) \<in> set (sends_of (snd (step static parse stringify e st)))"
  with HttpGet sends_of_http_get [of static stringify path st] show ?thesis
    by (auto split: prod.splits)
qed (auto simp: on_connection_def on_close_def split: option.splits)

lemma sent_to_step_stranger:
  assumes "c \<notin> set (clients st)" and "e \<noteq> Connection c"
  shows "sent_to c (snd (step static parse stringify e st)) = []"
proof -
  have "\<forall>p \<in> set (sends_of (snd (step static parse stringify e st))). fst p \<noteq> c"
    using assms sends_of_step [of _ _ static parse stringify e st] by fastforce
  then show ?thesis
    by (simp add: sent_to_def filter_empty_conv)
qed

lemma stranger_step:
  assumes "c \<notin> set (clients st)" and "e \<noteq> Connection c"
    and "fst (step static parse stringify e st) = Some st'"
  shows "c \<notin> set (clients st')"
  using assms(1,2) unfolding step_frame(1) [OF assms(3)]
  by (cases e) (auto simp: Set_add_def Set_delete_def)

lemma sent_to_run_stranger:
  assumes "c \<notin> set (clients st)" and "Connection c \<notin> set es"
  shows "sent_to c (snd (run static parse stringify es st)) = []"
  using assms
proof (induction es arbitrary: st)
  case Nil
  then show ?case by (simp add: sent_to_def)
next
  case (Cons e es)
  have ne: "e \<noteq> Connection c" and rest: "Connection c \<notin> set es"
    using Cons.prems(2) by auto
  have s1: "sent_to c (snd (step static parse stringify e st)) = []"
    using Cons.prems(1) ne by (rule sent_to_step_stranger)
  show ?case
  proof (cases "fst (step static parse stringify e st)")
    case None
    with s1 show ?thesis
      by (simp add: run_Cons_exit)
  next
    case (Some st1)
    have "c \<notin> set (clients st1)"
      using Cons.prems(1) ne Some by (rule stranger_step)
    from Cons.IH [OF this rest] s1 Some show ?thesis
      by (simp add: run_Cons_on sent_to_append)
  qed
qed

lemma clients_init: "clients (init e) = []"
  by (simp add: init_def)

lemma joined_run:
  "fst (run static parse stringify es st) = Some st' \<Longrightarrow>
     (c \<in> set (clients st')) = joined c (c \<in> set (clients st)) es"
proof (induction es arbitrary: st)
  case Nil
  then show ?case by simp
next
  case (Cons e es)
  show ?case
  proof (cases "fst (step static parse stringify e st)")
    case None
    with Cons.prems show ?thesis
      by (simp add: run_Cons_exit)
  next
    case (Some st1)
    with Cons.prems have r: "fst (run static parse stringify es st1) = Some st'"
      by (simp add: run_Cons_on)
    have "(c \<in> set (clients st1)) =
        (if e = Connection c then True else if e = Close c then False else c \<in> set (clients st))"
      unfolding step_frame(1) [OF Some]
      by (cases e) (auto simp: Set_add_def Set_delete_def)
    with Cons.IH [OF r] show ?thesis
      by simp
  qed
qed

lemma clients_run_no_close:
  assumes "closes es = []" and "distinct (clients st @ connections es)"
    and "fst (run static parse stringify es st) = Some st'"
  shows "clients st' = clients st @ connections es"
  using assms
proof (induction es arbitrary: st)
  case Nil
  then show ?case by simp
next
  case (Cons e es)
  show ?case
  proof (cases "fst (step static parse stringify e st)")
    case None
    with Cons.prems(3) show ?thesis
      by (simp add: run_Cons_exit)
  next
    case (Some st1)
    with Cons.prems(3) have r: "fst (run static parse stringify es st1) = Some st'"
      by (simp add: run_Cons_on)
    have nc: "closes es = []"
      using Cons.prems(1) by (cases e) simp_all
    have cl: "clients st1 @ connections es = clients st @ connections (e # es)"
      using Cons.prems(1,2) unfolding step_frame(1) [OF Some]
      by (cases e) (auto simp: Set_add_def)
    have "distinct (clients st1 @ connections es)"
      using Cons.prems(2) by (simp only: cl)
    with nc have "clients st' = clients st1 @ connections es"
      using r by (rule Cons.IH)
    then show ?thesis
      by (simp only: cl)
  qed
qed

lemma length_removeAll_member:
  "distinct xs \<Longrightarrow> x \<in> set xs \<Longrightarrow> length (removeAll x xs) = length xs - 1"
  by (simp add: distinct_remove1_removeAll [symmetric] length_remove1)

lemma snapshot_kept_without_message:
  assumes "messages es = []" and "stringify (latestMetrics st) = Some d"
  shows "\<exists>st'. fst (run static parse stringify es st) = Some st'
            \<and> latestMetrics st' = latestMetrics st"
  using assms
proof (induction es arbitrary: st)
  case Nil
  then show ?case by simp
next
  case (Cons e es)
  have nm: "messages es = []"
    using Cons.prems(1) by (cases e) simp_all
  have "\<exists>st1. fst (step static parse stringify e st) = Some st1
          \<and> latestMetrics st1 = latestMetrics st"
    using Cons.prems
    by (cases e)
       (simp_all add: on_connection_def on_close_def http_get_frame case_prod_unfold)
  then obtain st1 where s: "fst (step static parse stringify e st) = Some st1"
    and m: "latestMetrics st1 = latestMetrics st"
    by blast
  from Cons.IH [OF nm, of st1] Cons.prems(2) m
  obtain st' where "fst (run static parse stringify es st1) = Some st'"
    and "latestMetrics st' = latestMetrics st1"
    by auto
  with s m show ?case
    by (simp add: run_Cons_on)
qed

lemma sent_to_open_member:
  assumes "distinct (clients st)" and "parse message = Some v" and "stringify v = Some d"
  shows "sent_to c (snd (on_message parse stringify ws message st)) =
           (if c \<in> set (clients st) \<and> readyState st c = OPEN then [d] else [])"
proof -
  have f: "filter (\<lambda>x. x = c \<and> P x) xs = (if c \<in> set xs \<and> P c then [c] else [])"
    if "distinct xs" for xs :: "ws list" and P
    using that by (induction xs) auto
  have "sent_to c (snd (on_message parse stringify ws message st)) =
          map (\<lambda>_. d) (filter (\<lambda>x. x = c \<and> readyState st x = OPEN) (clients st))"
    using assms(2,3)
    by (simp add: on_message_sent sent_to_def sends_of_WsSend filter_map o_def conj_commute)
  then show ?thesis
    using f [OF assms(1), of "\<lambda>x. readyState st x = OPEN"] by simp
qed

text \<open>
  While the snapshot can be serialised, a socket that connects for the first time is
  sent the snapshot and nothing before it.
\<close>

lemma first_message_is_snapshot:
  assumes "Connection ws \<notin> set es"
    and "fst (run static parse stringify es (init e)) = Some st"
    and "stringify (latestMetrics st) = Some d"
  shows "sent_to ws (snd (run static parse stringify (es @ [Connection ws]) (init e))) = [d]"
proof -
  have "sent_to ws (snd (run static parse stringify es (init e))) = []"
    using sent_to_run_stranger [of ws "init e" es static parse stringify] assms(1)
    by (simp add: clients_init)
  moreover have "sent_to ws (snd (run static parse stringify [Connection ws] st)) = [d]"
    using assms(3) by (simp add: run.simps(2) on_connection_def sent_to_def)
  ultimately show ?thesis
    by (simp add: run_append_on [OF assms(2)] sent_to_append)
qed

text \<open>
  The text \<^verbatim>\<open>"hello"\<close> with its quotation marks is a JSON string: it parses, becomes
  the snapshot and is broadcast.
\<close>

lemma quoted_hello_is_broadcast:
  "latestMetrics (fst (on_message JSON_parse (JSON_stringify_rt limit) ws ''\"hello\"'' st))
     = JString ''hello''
   \<and> sends_of (snd (on_message JSON_parse (JSON_stringify_rt limit) ws ''\"hello\"'' st)) =
       map (\<lambda>c. (c, ''\"hello\"'')) (filter (\<lambda>c. readyState st c = OPEN) (clients st))"
  by (simp add: on_message_def broadcast_def parse_quoted_hello stringify_rt_hello
        forEach_send_Some sends_of_WsSend)

section \<open>The claims\<close>

text \<open>
  C1. A payload on which \<^verbatim>\<open>JSON.parse\<close> throws leaves the whole state as it was (the
  snapshot, the active set and with it the sender's membership, every socket's
  \<^verbatim>\<open>readyState\<close>), makes no call of \<^verbatim>\<open>send\<close>, and the handler returns: the
  events after it are processed exactly as if the payload had not arrived, with the one
  logged error line in front.
\<close>

theorem malformed_payload_discarded:
  assumes "parse message = None"
  shows "fst (on_message parse stringify ws message st) = st
       \<and> sends_of (snd (on_message parse stringify ws message st)) = []
       \<and> (ws \<in> set (clients st)
            \<longrightarrow> ws \<in> set (clients (fst (on_message parse stringify ws message st))))
       \<and> run static parse stringify (Message ws message # es) st =
           (fst (run static parse stringify es st),
            ConsoleError ''Error processing message:''
              # snd (run static parse stringify es st))"
proof -
  have "fst (step static parse stringify (Message ws message) st) = Some st"
    using assms by (simp add: on_message_None)
  from run_Cons_on [OF this] assms show ?thesis
    by (simp add: on_message_None)
qed

theorem malformed_payload_discarded_witness:
  "JSON_parse ''{\"cpu\":'' = None
   \<and> fst (on_message JSON_parse (JSON_stringify_rt 4999) 0 ''{\"cpu\":''
            (init (JObject [])
               \<lparr>clients := [0, 1],
                readyState := (readyState (init (JObject [])))(0 := OPEN, 1 := OPEN)\<rparr>))
       = init (JObject [])
           \<lparr>clients := [0, 1],
            readyState := (readyState (init (JObject [])))(0 := OPEN, 1 := OPEN)\<rparr>
   \<and> sends_of (snd (on_message JSON_parse (JSON_stringify_rt 4999) 0 ''{\"cpu\":''
            (init (JObject [])
               \<lparr>clients := [0, 1],
                readyState := (readyState (init (JObject [])))(0 := OPEN, 1 := OPEN)\<rparr>)))
       = []"
proof -
  have h: "JSON_parse ''{\"cpu\":'' = None"
    by code_simp
  show ?thesis
    using h malformed_payload_discarded [where parse = JSON_parse and message = "''{\"cpu\":''"
        and stringify = "JSON_stringify_rt 4999" and ws = 0
        and st = "init (JObject [])
               \<lparr>clients := [0, 1],
                readyState := (readyState (init (JObject [])))(0 := OPEN, 1 := OPEN)\<rparr>"
        and es = "[]" and static = serves_server_js, OF h]
    by simp
qed

text \<open>
  C2. Client \<open>A\<close> sends the payload \<^verbatim>\<open>{"cpu":42}\<close>. In every state the running server
  can reach, with any serialiser that serialises this value as the language standard
  says, every member of the active set other than \<open>A\<close> whose transport is open is sent
  exactly one message by the handler, and that message is \<^verbatim>\<open>{"cpu":42}\<close>.
\<close>

theorem cpu_payload_reaches_every_other_open_client:
  assumes "fst (run static JSON_parse stringify es (init (JObject []))) = Some st"
    and "stringify (JObject [(''cpu'', JNumber 42)])
           = Some (JSON_stringify (JObject [(''cpu'', JNumber 42)]))"
    and "c \<in> set (clients st)" and "c \<noteq> A" and "readyState st c = OPEN"
  shows "sent_to c (snd (on_message JSON_parse stringify A ''{\"cpu\":42}'' st))
           = [''{\"cpu\":42}'']"
proof -
  have "live st"
    using live_init assms(1) by (rule live_run)
  then have d: "distinct (clients st)"
    by (simp add: live_def)
  have "sent_to c (snd (on_message JSON_parse stringify A ''{\"cpu\":42}'' st))
          = [JSON_stringify (JObject [(''cpu'', JNumber 42)])]"
    using sent_to_open_member [where parse = JSON_parse and message = "''{\"cpu\":42}''"
        and stringify = stringify and c = c and ws = A, OF d parse_cpu assms(2)] assms(3,5)
    by (simp del: JSON_stringify.simps)
  then show ?thesis
    by (simp only: stringify_cpu)
qed

theorem cpu_payload_reaches_every_other_open_client_witness:
  "fst (run serves_server_js JSON_parse (JSON_stringify_rt 4999)
          [Connection 0, Connection 1, Connection 2] (init (JObject [])))
     = Some (init (JObject [])
           \<lparr>clients := [0, 1, 2],
            readyState := (readyState (init (JObject [])))(0 := OPEN, 1 := OPEN, 2 := OPEN)\<rparr>)
   \<and> JSON_stringify_rt 4999 (JObject [(''cpu'', JNumber 42)])
       = Some (JSON_stringify (JObject [(''cpu'', JNumber 42)]))
   \<and> (1::nat) \<noteq> 0
   \<and> sent_to 1 (snd (on_message JSON_parse (JSON_stringify_rt 4999) 0 ''{\"cpu\":42}''
         (init (JObject [])
           \<lparr>clients := [0, 1, 2],
            readyState := (readyState (init (JObject [])))(0 := OPEN, 1 := OPEN, 2 := OPEN)\<rparr>)))
       = [''{\"cpu\":42}'']"
proof -
  have r: "fst (run serves_server_js JSON_parse (JSON_stringify_rt 4999)
          [Connection 0, Connection 1, Connection 2] (init (JObject [])))
     = Some (init (JObject [])
           \<lparr>clients := [0, 1, 2],
            readyState := (readyState (init (JObject [])))(0 := OPEN, 1 := OPEN, 2 := OPEN)\<rparr>)"
    by (simp add: run.simps(2) init_def on_connection_def Set_add_def stringify_rt_empty)
  have s: "JSON_stringify_rt 4999 (JObject [(''cpu'', JNumber 42)])
       = Some (JSON_stringify (JObject [(''cpu'', JNumber 42)]))"
    by (simp add: JSON_stringify_rt_def del: JSON_stringify.simps)
  have m: "1 \<in> set (clients (init (JObject [])
           \<lparr>clients := [0, 1, 2],
            readyState := (readyState (init (JObject [])))(0 := OPEN, 1 := OPEN, 2 := OPEN)\<rparr>))"
    by simp
  have n: "(1::nat) \<noteq> 0"
    by simp
  have o: "readyState (init (JObject [])
           \<lparr>clients := [0, 1, 2],
            readyState := (readyState (init (JObject [])))(0 := OPEN, 1 := OPEN, 2 := OPEN)\<rparr>) 1
        = OPEN"
    by simp
  from cpu_payload_reaches_every_other_open_client [OF r s m n o] r s n show ?thesis
    by blast
qed

text \<open>
  C3. At the failing input: client 0 connects and sends a valid payload of 5000 nested
  arrays (10000 characters); the handler stores it as the snapshot. When client 1 then
  connects, the connection handler's \<^verbatim>\<open>JSON.stringify(latestMetrics)\<close>, which is
  outside any \<^verbatim>\<open>try\<close>, throws; the process exits and client 1 is sent nothing, where
  the claim has it receive the snapshot first. (While the snapshot can be serialised the
  claim holds, lemma \<open>first_message_is_snapshot\<close>.)
\<close>

theorem connection_after_deep_snapshot_exits:
  "fst (run serves_server_js JSON_parse (JSON_stringify_rt 4999)
          [Connection 0, Message 0 (nest_text 4999), Connection 1] (init (JObject []))) = None
   \<and> sent_to 1 (snd (run serves_server_js JSON_parse (JSON_stringify_rt 4999)
          [Connection 0, Message 0 (nest_text 4999), Connection 1] (init (JObject [])))) = []
   \<and> JSON_parse (nest_text 4999) = Some (nest 4999)"
  by (simp add: run.simps(2) init_def on_connection_def on_message_def broadcast_def
        Set_add_def sent_to_def stringify_rt_empty stringify_rt_nest parse_nest_text)

text \<open>
  C4, as amended. In every state of the running server between two handler runs, each
  member of the active set has a transport that is open or closing, never closed, and
  the set has no duplicates. A socket is a member exactly when, of the connection and
  close events of the history that name it, the last one is a connection: it stays a
  member until its close event, whatever happens to its transport in between. The close
  handler removes its socket from the set at once and leaves the other members; the
  connection handler adds its socket and removes none; no other handler and no change
  of a transport's state changes the set.

  The claim as written asks that every member be open. It fails for a socket whose
  transport is closing and whose close event has not fired yet; the
  \<^verbatim>\<open>readyState === WebSocket.OPEN\<close> guard of the broadcast is there for such members.
\<close>

theorem active_set_members_not_closed:
  assumes "fst (run static parse stringify es (init e)) = Some st"
  shows "(\<forall>c \<in> set (clients st). readyState st c = OPEN \<or> readyState st c = CLOSING)
       \<and> distinct (clients st)
       \<and> (\<forall>c. (c \<in> set (clients st)) = joined c False es)
       \<and> map_option clients (fst (step static parse stringify (Connection ws) st)) =
           (if stringify (latestMetrics st) = None then None
            else Some (Set_add ws (clients st)))
       \<and> map_option clients (fst (step static parse stringify (Close ws) st))
           = Some (removeAll ws (clients st))
       \<and> map_option clients (fst (step static parse stringify (Message ws message) st))
           = Some (clients st)
       \<and> map_option clients (fst (step static parse stringify (TransportClosing ws) st))
           = Some (clients st)
       \<and> map_option clients (fst (step static parse stringify (HttpGet path) st))
           = Some (clients st)"
proof -
  have "live st"
    using live_init assms by (rule live_run)
  then have inv: "(\<forall>c \<in> set (clients st). readyState st c = OPEN \<or> readyState st c = CLOSING)
      \<and> distinct (clients st)"
    by (simp add: live_def list_all_iff)
  have hist: "\<forall>c. (c \<in> set (clients st)) = joined c False es"
    using joined_run [OF assms] by (simp add: clients_init)
  have conn: "map_option clients (fst (step static parse stringify (Connection ws) st)) =
           (if stringify (latestMetrics st) = None then None
            else Some (Set_add ws (clients st)))"
    by (auto simp: on_connection_def split: option.splits)
  have rest: "map_option clients (fst (step static parse stringify (Close ws) st))
           = Some (removeAll ws (clients st))"
      "map_option clients (fst (step static parse stringify (Message ws message) st))
           = Some (clients st)"
      "map_option clients (fst (step static parse stringify (TransportClosing ws) st))
           = Some (clients st)"
      "map_option clients (fst (step static parse stringify (HttpGet path) st))
           = Some (clients st)"
    by (simp_all add: on_close_def Set_delete_def on_message_frame http_get_frame
          case_prod_unfold)
  from inv hist conn rest show ?thesis
    by blast
qed

theorem member_with_closing_transport:
  "map_option clients (fst (run serves_server_js JSON_parse (JSON_stringify_rt 4999)
       [Connection 0, TransportClosing 0] (init (JObject [])))) = Some [0]
   \<and> map_option readyState (fst (run serves_server_js JSON_parse (JSON_stringify_rt 4999)
       [Connection 0, TransportClosing 0] (init (JObject []))))
       = Some ((readyState (init (JObject [])))(0 := CLOSING))
   \<and> CLOSING \<noteq> OPEN"
  by (simp add: run.simps(2) init_def on_connection_def Set_add_def stringify_rt_empty)

theorem active_set_members_not_closed_witness:
  "fst (run serves_server_js JSON_parse (JSON_stringify_rt 4999)
          [Connection 0, TransportClosing 0, Connection 1] (init (JObject [])))
     = Some (init (JObject [])
           \<lparr>clients := [0, 1],
            readyState := (readyState (init (JObject [])))(0 := CLOSING, 1 := OPEN)\<rparr>)
   \<and> joined 0 False [Connection 0, TransportClosing 0, Connection 1]
   \<and> \<not> joined 2 False [Connection 0, TransportClosing 0, Connection 1]
   \<and> map_option clients (fst (step serves_server_js JSON_parse (JSON_stringify_rt 4999)
         (Connection 2)
         (init (JObject [])
           \<lparr>clients := [0, 1],
            readyState := (readyState (init (JObject [])))(0 := CLOSING, 1 := OPEN)\<rparr>)))
       = Some [0, 1, 2]
   \<and> map_option clients (fst (step serves_server_js JSON_parse (JSON_stringify_rt 4999)
         (Close 0)
         (init (JObject [])
           \<lparr>clients := [0, 1],
            readyState := (readyState (init (JObject [])))(0 := CLOSING, 1 := OPEN)\<rparr>)))
       = Some [1]"
proof -
  have r: "fst (run serves_server_js JSON_parse (JSON_stringify_rt 4999)
          [Connection 0, TransportClosing 0, Connection 1] (init (JObject [])))
     = Some (init (JObject [])
           \<lparr>clients := [0, 1],
            readyState := (readyState (init (JObject [])))(0 := CLOSING, 1 := OPEN)\<rparr>)"
    by (simp add: run.simps(2) init_def on_connection_def Set_add_def stringify_rt_empty)
  have s: "JSON_stringify_rt 4999 (latestMetrics (init (JObject [])
           \<lparr>clients := [0, 1],
            readyState := (readyState (init (JObject [])))(0 := CLOSING, 1 := OPEN)\<rparr>))
         \<noteq> None"
    by (simp add: init_def stringify_rt_empty)
  have c: "Set_add 2 [0, 1 :: nat] = [0, 1, 2]" "removeAll 0 [0, 1 :: nat] = [1]"
    by (simp_all add: Set_add_def)
  have j: "joined 0 False [Connection 0, TransportClosing 0, Connection 1]"
      "\<not> joined 2 False [Connection 0, TransportClosing 0, Connection 1]"
    by simp_all
  from active_set_members_not_closed [OF r, where ws = 2]
  have a: "map_option clients (fst (step serves_server_js JSON_parse (JSON_stringify_rt 4999)
         (Connection 2)
         (init (JObject [])
           \<lparr>clients := [0, 1],
            readyState := (readyState (init (JObject [])))(0 := CLOSING, 1 := OPEN)\<rparr>)))
       = Some [0, 1, 2]"
    using s c by (simp del: step.simps)
  from active_set_members_not_closed [OF r, where ws = 0]
  have b: "map_option clients (fst (step serves_server_js JSON_parse (JSON_stringify_rt 4999)
         (Close 0)
         (init (JObject [])
           \<lparr>clients := [0, 1],
            readyState := (readyState (init (JObject [])))(0 := CLOSING, 1 := OPEN)\<rparr>)))
       = Some [1]"
    using c by (simp del: step.simps)
  from r j a b show ?thesis
    by blast
qed

text \<open>
  C5. After a history without close events in which \<open>N\<close> distinct sockets connected,
  the active set of the running server has \<open>N\<close> members; once the close event of one
  of them, \<open>K\<close>, is processed the server is still running, the set has \<open>N - 1\<close>
  members, \<open>K\<close> is not among them, and whatever events follow (\<open>K\<close>, a closed socket
  object, does not connect again) nothing is sent to \<open>K\<close>.
\<close>

theorem close_leaves_one_fewer:
  assumes "closes es = []" and "distinct (connections es)" and "K \<in> set (connections es)"
    and "Connection K \<notin> set es'"
    and "fst (run static parse stringify es (init e)) = Some st"
  shows "length (clients st) = length (connections es)
       \<and> (\<exists>st'. fst (run static parse stringify (es @ [Close K]) (init e)) = Some st'
             \<and> length (clients st') = length (connections es) - 1
             \<and> K \<notin> set (clients st')
             \<and> sent_to K (snd (run static parse stringify es' st')) = [])"
proof -
  let ?st' = "fst (on_close K (st\<lparr>readyState := (readyState st)(K := CLOSED)\<rparr>))"
  have cs: "clients st = connections es"
    using clients_run_no_close [OF assms(1) _ assms(5)] assms(2)
    by (simp add: clients_init)
  have after: "fst (run static parse stringify (es @ [Close K]) (init e)) = Some ?st'"
    by (simp add: run_append_on [OF assms(5)] run.simps(2) case_prod_unfold)
  have cl: "clients ?st' = removeAll K (connections es)"
    by (simp add: on_close_def Set_delete_def cs)
  then have gone: "K \<notin> set (clients ?st')"
    by simp
  have quiet: "sent_to K (snd (run static parse stringify es' ?st')) = []"
    using gone assms(4) by (rule sent_to_run_stranger)
  have len: "length (clients ?st') = length (connections es) - 1"
    using assms(2,3) by (simp only: cl length_removeAll_member)
  show ?thesis
  proof (intro conjI exI)
    show "length (clients st) = length (connections es)"
      by (simp only: cs)
    show "fst (run static parse stringify (es @ [Close K]) (init e)) = Some ?st'"
      by (rule after)
    show "length (clients ?st') = length (connections es) - 1"
      by (rule len)
    show "K \<notin> set (clients ?st')"
      by (rule gone)
    show "sent_to K (snd (run static parse stringify es' ?st')) = []"
      by (rule quiet)
  qed
qed

theorem close_leaves_one_fewer_witness:
  "closes [Connection 0, Connection 1, Connection 2] = []
   \<and> distinct (connections [Connection 0, Connection 1, Connection 2])
   \<and> 1 \<in> set (connections [Connection 0, Connection 1, Connection 2])
   \<and> Connection 1 \<notin> set [Message 0 ''{\"cpu\":42}'']
   \<and> fst (run serves_server_js JSON_parse (JSON_stringify_rt 4999)
          [Connection 0, Connection 1, Connection 2] (init (JObject [])))
       = Some (init (JObject [])
           \<lparr>clients := [0, 1, 2],
            readyState := (readyState (init (JObject [])))(0 := OPEN, 1 := OPEN, 2 := OPEN)\<rparr>)
   \<and> map_option clients (fst (run serves_server_js JSON_parse (JSON_stringify_rt 4999)
          ([Connection 0, Connection 1, Connection 2] @ [Close 1]) (init (JObject []))))
       = Some [0, 2]"
proof -
  have h1: "closes [Connection 0, Connection 1, Connection 2] = []"
    by simp
  have h2: "distinct (connections [Connection 0, Connection 1, Connection 2])"
    by simp
  have h3: "1 \<in> set (connections [Connection 0, Connection 1, Connection 2])"
    by simp
  have h4: "Connection 1 \<notin> set [Message 0 ''{\"cpu\":42}'']"
    by simp
  have h5: "fst (run serves_server_js JSON_parse (JSON_stringify_rt 4999)
          [Connection 0, Connection 1, Connection 2] (init (JObject [])))
       = Some (init (JObject [])
           \<lparr>clients := [0, 1, 2],
            readyState := (readyState (init (JObject [])))(0 := OPEN, 1 := OPEN, 2 := OPEN)\<rparr>)"
    by (simp add: run.simps(2) init_def on_connection_def Set_add_def stringify_rt_empty)
  have c: "map_option clients (fst (run serves_server_js JSON_parse (JSON_stringify_rt 4999)
          ([Connection 0, Connection 1, Connection 2] @ [Close 1]) (init (JObject []))))
       = Some [0, 2]"
    by (simp add: run.simps(2) init_def on_connection_def on_close_def Set_add_def
          Set_delete_def stringify_rt_empty)
  from close_leaves_one_fewer [OF h1 h2 h3 h4 h5] h1 h2 h3 h4 h5 c show ?thesis
    by blast
qed

text \<open>
  C6. At the failing input: \<^verbatim>\<open>part_001\<close> answers the two different messages the
  clients of this repository send with the same text, in which the characters
  \<^verbatim>\<open>${message}\<close> stand where the message was meant to be; its reply does not depend
  on the message. \<^verbatim>\<open>part_000\<close>, with the template literal, answers each message
  with the message after the prefix.
\<close>

theorem part_001_reply_ignores_the_message:
  "sends_of (part_001_incoming 0 ''Hello from ESP32!'') = [(0, ''Server recieved: ${message}'')]
   \<and> sends_of (part_001_incoming 0 ''Ping from ESP32'') = [(0, ''Server recieved: ${message}'')]
   \<and> sends_of (part_000_incoming 0 ''Hello from ESP32!'')
       = [(0, ''Server received: Hello from ESP32!'')]
   \<and> sends_of (part_000_incoming 0 ''Ping from ESP32'')
       = [(0, ''Server received: Ping from ESP32'')]"
  by (simp add: part_000_incoming_def part_001_incoming_def)




text \<open>
  C8. The text \<^verbatim>\<open>hello\<close> is not JSON: \<^verbatim>\<open>JSON.parse\<close> throws on it, the handler
  sends nothing and the state, with the snapshot, is unchanged, whatever the serialiser.
  (The seven characters \<^verbatim>\<open>"hello"\<close>, quotation marks included, are a JSON string;
  lemma \<open>quoted_hello_is_broadcast\<close> records what the handler does with them.)
\<close>

theorem hello_is_discarded:
  "JSON_parse ''hello'' = None
   \<and> fst (on_message JSON_parse stringify ws ''hello'' st) = st
   \<and> sends_of (snd (on_message JSON_parse stringify ws ''hello'' st)) = []"
  by (simp add: on_message_def parse_hello)

text \<open>
  C9, as amended. No HTTP GET request changes the state. The server answers such
  requests in two ways: the static middleware serves the files of the directory of
  \<^verbatim>\<open>server.js\<close>, and a request it passes on is answered by the one registered route,
  \<^verbatim>\<open>/metrics\<close>, with the snapshot serialised as JSON whenever \<^verbatim>\<open>JSON.stringify\<close>
  can serialise it (and with an error when it throws). In particular, after client
  \<open>A\<close>'s message \<^verbatim>\<open>{"cpu":42}\<close> is processed, and whatever events other than
  messages follow, a read of \<^verbatim>\<open>/metrics\<close> that no file shadows returns
  \<^verbatim>\<open>{"cpu":42}\<close>.

  The claim as written has one endpoint that returns the snapshot for every request. A
  request for \<^verbatim>\<open>/server.js\<close> is answered with that file, and a request for
  \<^verbatim>\<open>/metrics\<close> after a payload of 5000 nested arrays was stored is answered with an
  error and no snapshot.
\<close>

theorem metrics_endpoint_returns_snapshot:
  assumes "messages es = []" and "static ''/metrics'' = None"
    and "stringify (JObject [(''cpu'', JNumber 42)])
           = Some (JSON_stringify (JObject [(''cpu'', JNumber 42)]))"
  shows "fst (http_get serve serialise path st) = st
       \<and> (serve path = None \<and> route_metrics path \<and> serialise (latestMetrics st) = Some body
            \<longrightarrow> snd (http_get serve serialise path st) = [ResJson body])
       \<and> (serve path = None \<and> route_metrics path \<and> serialise (latestMetrics st) = None
            \<longrightarrow> snd (http_get serve serialise path st) = [ResError])
       \<and> (serve path = None \<and> \<not> route_metrics path
            \<longrightarrow> snd (http_get serve serialise path st) = [ResNotFound])
       \<and> (serve path = Some file
            \<longrightarrow> snd (http_get serve serialise path st) = [ResFile file])
       \<and> route_metrics ''/metrics''
       \<and> last (responses_of (snd (run static JSON_parse stringify
             (Message A ''{\"cpu\":42}'' # es @ [HttpGet ''/metrics'']) st0))) = ''{\"cpu\":42}''"
proof -
  let ?v = "JObject [(''cpu'', JNumber 42)]"
  let ?st1 = "st0\<lparr>latestMetrics := ?v\<rparr>"
  have route: "route_metrics ''/metrics''"
    by (simp add: route_metrics_def to_lower_def)
  have general: "fst (http_get serve serialise path st) = st
       \<and> (serve path = None \<and> route_metrics path \<and> serialise (latestMetrics st) = Some body
            \<longrightarrow> snd (http_get serve serialise path st) = [ResJson body])
       \<and> (serve path = None \<and> route_metrics path \<and> serialise (latestMetrics st) = None
            \<longrightarrow> snd (http_get serve serialise path st) = [ResError])
       \<and> (serve path = None \<and> \<not> route_metrics path
            \<longrightarrow> snd (http_get serve serialise path st) = [ResNotFound])
       \<and> (serve path = Some file
            \<longrightarrow> snd (http_get serve serialise path st) = [ResFile file])"
    by (simp add: http_get_def get_metrics_def split: option.splits)
  have s1: "fst (step static JSON_parse stringify (Message A ''{\"cpu\":42}'') st0) = Some ?st1"
    by (simp add: on_message_sent [where parse = JSON_parse and stringify = stringify,
          OF parse_cpu assms(3)] del: JSON_stringify.simps)
  have "stringify (latestMetrics ?st1) = Some (JSON_stringify ?v)"
    using assms(3) by (simp del: JSON_stringify.simps)
  from snapshot_kept_without_message [where stringify = stringify and st = ?st1
      and static = static and parse = JSON_parse, OF assms(1) this]
  obtain st2 where s2: "fst (run static JSON_parse stringify es ?st1) = Some st2"
    and m2: "latestMetrics st2 = ?v"
    by auto
  have s3: "snd (run static JSON_parse stringify [HttpGet ''/metrics''] st2)
      = [ResJson (JSON_stringify ?v)]"
    using assms(2,3) route m2
    by (simp add: run.simps(2) http_get_def get_metrics_def del: JSON_stringify.simps)
  have "snd (run static JSON_parse stringify
             (Message A ''{\"cpu\":42}'' # es @ [HttpGet ''/metrics'']) st0)
      = snd (step static JSON_parse stringify (Message A ''{\"cpu\":42}'') st0)
        @ snd (run static JSON_parse stringify es ?st1) @ [ResJson (JSON_stringify ?v)]"
    by (simp only: run_Cons_on [OF s1] run_append_on [OF s2] s3 snd_conv)
  then have "last (responses_of (snd (run static JSON_parse stringify
             (Message A ''{\"cpu\":42}'' # es @ [HttpGet ''/metrics'']) st0)))
      = JSON_stringify ?v"
    by (simp only: responses_of_append) simp
  then have "last (responses_of (snd (run static JSON_parse stringify
             (Message A ''{\"cpu\":42}'' # es @ [HttpGet ''/metrics'']) st0))) = ''{\"cpu\":42}''"
    by (simp only: stringify_cpu)
  with general route show ?thesis
    by blast
qed

theorem other_answers_than_the_snapshot:
  "snd (http_get serves_server_js (JSON_stringify_rt 4999) ''/server.js'' (init (JObject [])))
     = [ResFile ''server.js'']
   \<and> JSON_parse (nest_text 4999) = Some (nest 4999)
   \<and> responses_of (snd (run serves_server_js JSON_parse (JSON_stringify_rt 4999)
        [Connection 0, Message 0 (nest_text 4999), HttpGet ''/metrics''] (init (JObject []))))
       = []
   \<and> last (snd (run serves_server_js JSON_parse (JSON_stringify_rt 4999)
        [Connection 0, Message 0 (nest_text 4999), HttpGet ''/metrics''] (init (JObject []))))
       = ResError"
  by (simp add: run.simps(2) init_def on_connection_def on_message_def broadcast_def
        Set_add_def stringify_rt_empty stringify_rt_nest parse_nest_text http_get_def
        get_metrics_def serves_server_js_def route_metrics_def to_lower_def)

theorem metrics_endpoint_returns_snapshot_witness:
  "messages [Connection 1, TransportClosing 0] = []
   \<and> serves_server_js ''/metrics'' = None
   \<and> JSON_stringify_rt 4999 (JObject [(''cpu'', JNumber 42)])
       = Some (JSON_stringify (JObject [(''cpu'', JNumber 42)]))
   \<and> last (responses_of (snd (run serves_server_js JSON_parse (JSON_stringify_rt 4999)
        (Message 0 ''{\"cpu\":42}'' # [Connection 1, TransportClosing 0] @ [HttpGet ''/metrics''])
        (init (JObject []) \<lparr>clients := [0],
            readyState := (readyState (init (JObject [])))(0 := OPEN)\<rparr>))))
       = ''{\"cpu\":42}''"
proof -
  have h1: "messages [Connection 1, TransportClosing 0] = []"
    by simp
  have h2: "serves_server_js ''/metrics'' = None"
    by (simp add: serves_server_js_def)
  have h3: "JSON_stringify_rt 4999 (JObject [(''cpu'', JNumber 42)])
       = Some (JSON_stringify (JObject [(''cpu'', JNumber 42)]))"
    by (simp add: JSON_stringify_rt_def del: JSON_stringify.simps)
  from metrics_endpoint_returns_snapshot [where static = serves_server_js
      and stringify = "JSON_stringify_rt 4999" and es = "[Connection 1, TransportClosing 0]"
      and A = 0 and ?st0.0 = "init (JObject []) \<lparr>clients := [0],
            readyState := (readyState (init (JObject [])))(0 := OPEN)\<rparr>", OF h1 h2 h3]
    h1 h2 h3
  show ?thesis
    by blast
qed




end
